theory Spec2Isabelle
  imports Main "HOL-Library.AList" "HOL-Library.Sublist"
begin

section \<open>Data model of \<^verbatim>\<open>src/core/figma-backup.js\<close>\<close>

text \<open>
  The class \<^verbatim>\<open>FigmaBackupSystem\<close> keeps one mutable object \<^verbatim>\<open>this.results\<close> and talks
  to collaborators whose code is not part of the orchestration (the Figma client, the
  Dropbox, Notion and Obsidian clients, the file system, the notification service).
  Error objects are represented by their \<^verbatim>\<open>message\<close>; JavaScript strings by their
  UTF-8 bytes; an absent or \<^verbatim>\<open>undefined\<close> property by \<open>None\<close>.
\<close>

text \<open>An entry of \<^verbatim>\<open>results.downloads\<close> (lines 239-245 and 250-255).\<close>

record download =
  d_url :: string
  d_success :: bool
  d_files :: "string list option"
  d_output_path :: "string option"
  d_error :: "string option"
  d_timestamp :: int

text \<open>An entry of \<^verbatim>\<open>results.uploads\<close> (lines 277-283 and 295-299).\<close>

record upload =
  u_source :: "string option"
  u_success :: bool
  u_remoteFolder :: "string option"
  u_timestamp :: int
  u_error :: "string option"

text \<open>An entry of \<^verbatim>\<open>results.syncs\<close> (lines 315-320, 325-330, 346-351, 356-361).\<close>

record sync =
  s_type :: string
  s_success :: bool
  s_details :: "string option"
  s_error :: "string option"
  s_timestamp :: int

text \<open>
  The values stored under \<^verbatim>\<open>summary.services\<close>: the shape written for a sync entry
  (lines 384-388) and the shape written for Dropbox (lines 393-397).
\<close>

datatype service_status =
    SyncStatus bool "string option" "string option"
  | DropboxStatus bool nat nat

text \<open>
  The object built by \<^verbatim>\<open>generateSummary\<close>. \<^verbatim>\<open>services\<close> is a JavaScript object used as
  a dictionary: an association list in insertion order, where writing an existing key
  replaces its value in place.
\<close>

record summary =
  sm_execution_id :: string
  total_targets :: nat
  successful_downloads :: nat
  failed_downloads :: nat
  total_files :: nat
  sm_duration :: string
  duration_ms :: "int option"
  sm_services :: "(string \<times> service_status) list"
  sm_errors :: "string list"

text \<open>\<^verbatim>\<open>this.results\<close> (lines 31-43); \<^verbatim>\<open>summary\<close> is \<open>None\<close> while it is still \<^verbatim>\<open>{}\<close>.\<close>

record results =
  execution_id :: string
  start_time :: int
  end_time :: "int option"
  duration :: "int option"
  success :: bool
  targets :: "string list"
  downloads :: "download list"
  uploads :: "upload list"
  syncs :: "sync list"
  errors :: "string list"
  summary :: "summary option"

text \<open>The part of the loaded configuration that the orchestration reads.\<close>

record config =
  backup_targets :: "string list"
  output_dir :: "string option"
  outputDir :: "string option"
  create_timestamp_folder :: "bool option"
  createTimestampFolder :: "bool option"
  dropbox_enabled :: bool
  notion_enabled :: bool
  obsidian_enabled :: bool

text \<open>The options object passed to \<^verbatim>\<open>downloadFromUrl\<close> (lines 234-237).\<close>

record download_options =
  opt_outputDir :: "string option"
  opt_createTimestampFolder :: "bool option"

text \<open>
  Every method call on a collaborator, with its arguments. The system state carries the
  list of the calls made so far, oldest first, so that "is invoked", "is attempted" and
  "is never forwarded" are statements about this list.
\<close>

datatype call =
    NotifyBackupStart "string list"
  | ValidateToken
  | DropboxValidateConnection
  | NotionValidateConnection
  | ObsidianValidateVault
  | DownloadFromUrl string download_options
  | DropboxSyncBackupResults "download list"
  | NotionSyncBackupResults "results list"
  | ObsidianSyncBackupResults "results list"
  | WriteReport results
  | NotifyBackupComplete "download list"
  | NotifyBackupError string

text \<open>
  What the collaborators return. The source returns \<^verbatim>\<open>{files, outputPath}\<close>: \<^verbatim>\<open>files\<close> is an
  array, whose length line 247 reads unguarded, and \<^verbatim>\<open>outputPath\<close> may be absent, which
  line 275 tests.
\<close>

record figma_result =
  fr_files :: "string list"
  fr_outputPath :: "string option"

record dropbox_result =
  dr_success :: bool
  dr_remoteFolder :: "string option"
  dr_error :: "string option"

text \<open>
  The reply of the Notion and Obsidian clients; of its \<^verbatim>\<open>results\<close> array only the
  length is read (lines 318 and 349).
\<close>

record sync_reply =
  sr_success :: bool
  sr_results_length :: "nat option"

text \<open>
  The collaborators. Each one either throws (\<open>Inl\<close> of the error's message) or returns
  (\<open>Inr\<close>); its answer may depend on its arguments and on every call made before, which
  is the first argument. \<open>date_now\<close> is the clock, \<open>humanize\<close> is
  \<^verbatim>\<open>moment.duration(ms).humanize()\<close>, \<open>loadConfig\<close> is \<^verbatim>\<open>ConfigManager.loadConfig\<close>,
  \<open>service_constructors\<close> is the message thrown by a service constructor of
  \<^verbatim>\<open>initializeServices\<close>, if one throws, and \<open>fs_writeReport\<close> stands for the
  \<^verbatim>\<open>ensureDir\<close> and \<^verbatim>\<open>writeJson\<close> calls of \<^verbatim>\<open>saveExecutionReport\<close>, returning the path.
\<close>

record env =
  uuidv4 :: string
  date_now :: "call list \<Rightarrow> int"
  humanize :: "int option \<Rightarrow> string"
  loadConfig :: "string + config"
  service_constructors :: "config \<Rightarrow> string option"
  figma_validateToken :: "call list \<Rightarrow> string + bool"
  dropbox_validateConnection :: "call list \<Rightarrow> string + bool"
  notion_validateConnection :: "call list \<Rightarrow> string + bool"
  obsidian_validateVault :: "call list \<Rightarrow> string + bool"
  figma_downloadFromUrl :: "call list \<Rightarrow> string \<Rightarrow> download_options \<Rightarrow> string + figma_result"
  dropbox_syncBackupResults :: "call list \<Rightarrow> download list \<Rightarrow> string + dropbox_result"
  notion_syncBackupResults :: "call list \<Rightarrow> results list \<Rightarrow> string + sync_reply"
  obsidian_syncBackupResults :: "call list \<Rightarrow> results list \<Rightarrow> string + sync_reply"
  fs_writeReport :: "call list \<Rightarrow> results \<Rightarrow> string + string"

text \<open>\<^verbatim>\<open>this.services\<close>: which of the optional services have been constructed.\<close>

record services =
  svc_dropbox :: bool
  svc_notion :: bool
  svc_obsidian :: bool

text \<open>
  The fields of \<^verbatim>\<open>this\<close> (lines 24-44), together with the log of collaborator calls.
  \<open>logger\<close> and \<open>notificationService\<close> say whether the field has been set.
\<close>

record system =
  executionId :: string
  startTime :: int
  config :: "config option"
  logger :: bool
  notificationService :: bool
  services :: services
  results :: results
  calls :: "call list"

section \<open>JavaScript helpers\<close>

text \<open>Truthiness of a string-valued property: absent and empty are falsy.\<close>

fun truthy :: "string option \<Rightarrow> bool" where
  "truthy None = False"
| "truthy (Some v) = (v \<noteq> [])"

text \<open>\<^verbatim>\<open>a || b\<close> on string-valued and on boolean-valued properties.\<close>

definition or_string :: "string option \<Rightarrow> string option \<Rightarrow> string option" where
  "or_string a b = (if truthy a then a else b)"

definition or_bool :: "bool option \<Rightarrow> bool option \<Rightarrow> bool option" where
  "or_bool a b = (if a = Some True then a else b)"

text \<open>A thrown object makes the awaited call fail; the call is logged either way.\<close>

definition invoke :: "call \<Rightarrow> system \<Rightarrow> system" where
  "invoke c s = s\<lparr>calls := calls s @ [c]\<rparr>"

text \<open>Decimal rendering of a number inside a template string.\<close>

fun decimal :: "nat \<Rightarrow> string" where
  "decimal n =
     (if n < 10 then [''0123456789'' ! n]
      else decimal (n div 10) @ [''0123456789'' ! (n mod 10)])"

declare decimal.simps [simp del]

text \<open>
  The fixed texts of the source, as UTF-8 bytes: the message thrown at line 172, the
  prefix of the message thrown at line 108, and the two halves of the \<^verbatim>\<open>details\<close>
  templates at lines 318 and 349.
\<close>

definition validation_failed_message :: string where
  "validation_failed_message =
     [CHR 0xE6, CHR 0x9C, CHR 0x8D, CHR 0xE5, CHR 0x8B, CHR 0x99, CHR 0xE9, CHR 0xA9, CHR 0x97,
      CHR 0xE8, CHR 0xAD, CHR 0x89, CHR 0xE5, CHR 0xA4, CHR 0xB1, CHR 0xE6, CHR 0x95, CHR 0x97,
      CHR 0xEF, CHR 0xBC, CHR 0x8C, CHR 0xE7, CHR 0x84, CHR 0xA1, CHR 0xE6, CHR 0xB3, CHR 0x95,
      CHR 0xE7, CHR 0xB9, CHR 0xBC, CHR 0xE7, CHR 0xBA, CHR 0x8C, CHR 0xE5, CHR 0x9F, CHR 0xB7,
      CHR 0xE8, CHR 0xA1, CHR 0x8C, CHR 0xE5, CHR 0x82, CHR 0x99, CHR 0xE4, CHR 0xBB, CHR 0xBD]"

definition service_init_failed :: string where
  "service_init_failed =
     [CHR 0xE6, CHR 0x9C, CHR 0x8D, CHR 0xE5, CHR 0x8B, CHR 0x99, CHR 0xE5, CHR 0x88, CHR 0x9D,
      CHR 0xE5, CHR 0xA7, CHR 0x8B, CHR 0xE5, CHR 0x8C, CHR 0x96, CHR 0xE5, CHR 0xA4, CHR 0xB1,
      CHR 0xE6, CHR 0x95, CHR 0x97, CHR 0x3A, CHR 0x20]"

definition notion_details :: "nat \<Rightarrow> string" where
  "notion_details n =
     [CHR 0xE6, CHR 0x9B, CHR 0xB4, CHR 0xE6, CHR 0x96, CHR 0xB0, CHR 0xE4, CHR 0xBA, CHR 0x86,
      CHR 0x20] @ decimal n @
     [CHR 0x20, CHR 0xE7, CHR 0xAD, CHR 0x86, CHR 0xE8, CHR 0xA8, CHR 0x98, CHR 0xE9, CHR 0x8C,
      CHR 0x84]"

definition obsidian_details :: "nat \<Rightarrow> string" where
  "obsidian_details n =
     [CHR 0xE5, CHR 0x90, CHR 0x8C, CHR 0xE6, CHR 0xAD, CHR 0xA5, CHR 0xE4, CHR 0xBA, CHR 0x86,
      CHR 0x20] @ decimal n @
     [CHR 0x20, CHR 0xE5, CHR 0x80, CHR 0x8B, CHR 0xE6, CHR 0xAA, CHR 0x94, CHR 0xE6, CHR 0xA1,
      CHR 0x88]"

text \<open>
  The message of the \<^verbatim>\<open>TypeError\<close> raised when a property of a field that is still
  \<^verbatim>\<open>null\<close> is read.
\<close>

definition null_property :: "string \<Rightarrow> string" where
  "null_property p =
     ''Cannot read properties of null (reading '' @ [CHR 0x27] @ p @ [CHR 0x27] @ '')''"

section \<open>The download stage\<close>

text \<open>The options object of lines 235-236.\<close>

definition download_opts :: "config \<Rightarrow> download_options" where
  "download_opts cfg =
     \<lparr>opt_outputDir = or_string (output_dir cfg) (outputDir cfg),
      opt_createTimestampFolder =
        or_bool (create_timestamp_folder cfg) (createTimestampFolder cfg)\<rparr>"

text \<open>
  \<^verbatim>\<open>downloadFigmaFiles\<close> (lines 224-263). \<open>cfg\<close> is \<^verbatim>\<open>this.config\<close>. The loop pushes one
  entry in the \<^verbatim>\<open>try\<close> branch or one in the \<^verbatim>\<open>catch\<close> branch and goes on to the next url;
  \<open>dls\<close> is the local array \<^verbatim>\<open>downloads\<close>.
\<close>

fun download_loop ::
  "env \<Rightarrow> config \<Rightarrow> string list \<Rightarrow> download list \<Rightarrow> system \<Rightarrow> download list \<times> system" where
  "download_loop e cfg [] dls s = (dls, s)"
| "download_loop e cfg (url # urls) dls s =
     (let s1 = invoke (DownloadFromUrl url (download_opts cfg)) s
      in case figma_downloadFromUrl e (calls s) url (download_opts cfg) of
           Inr result \<Rightarrow>
             download_loop e cfg urls
               (dls @ [\<lparr>d_url = url, d_success = True, d_files = Some (fr_files result),
                        d_output_path = fr_outputPath result, d_error = None,
                        d_timestamp = date_now e (calls s1)\<rparr>]) s1
         | Inl err \<Rightarrow>
             download_loop e cfg urls
               (dls @ [\<lparr>d_url = url, d_success = False, d_files = None,
                        d_output_path = None, d_error = Some err,
                        d_timestamp = date_now e (calls s1)\<rparr>]) s1)"

definition downloadFigmaFiles ::
  "env \<Rightarrow> config \<Rightarrow> string list \<Rightarrow> system \<Rightarrow> download list \<times> system" where
  "downloadFigmaFiles e cfg urls s = download_loop e cfg urls [] s"

section \<open>The destinations\<close>

text \<open>
  \<^verbatim>\<open>uploadToDropbox\<close> (lines 269-301). The \<^verbatim>\<open>for\<close> loop of lines 274-285 runs inside one
  \<^verbatim>\<open>try\<close>: a call that throws leaves the loop with the error, and the local array
  \<^verbatim>\<open>uploads\<close> (here \<open>upls\<close>) is not returned.
\<close>

fun upload_loop ::
  "env \<Rightarrow> download list \<Rightarrow> upload list \<Rightarrow> system \<Rightarrow> (string + upload list) \<times> system" where
  "upload_loop e [] upls s = (Inr upls, s)"
| "upload_loop e (download # rest) upls s =
     (if d_success download \<and> truthy (d_output_path download) then
        (let s1 = invoke (DropboxSyncBackupResults [download]) s
         in case dropbox_syncBackupResults e (calls s) [download] of
              Inl err \<Rightarrow> (Inl err, s1)
            | Inr result \<Rightarrow>
                upload_loop e rest
                  (upls @ [\<lparr>u_source = d_output_path download, u_success = dr_success result,
                            u_remoteFolder = dr_remoteFolder result,
                            u_timestamp = date_now e (calls s1),
                            u_error = dr_error result\<rparr>]) s1)
      else upload_loop e rest upls s)"

definition uploadToDropbox :: "env \<Rightarrow> download list \<Rightarrow> system \<Rightarrow> upload list \<times> system" where
  "uploadToDropbox e figmaDownloads s =
     (case upload_loop e figmaDownloads [] s of
        (Inr upls, s1) \<Rightarrow> (upls, s1)
      | (Inl err, s1) \<Rightarrow>
          ([\<lparr>u_source = None, u_success = False, u_remoteFolder = None,
             u_timestamp = date_now e (calls s1), u_error = Some err\<rparr>], s1))"

text \<open>\<^verbatim>\<open>updateNotionDatabase\<close> (lines 307-332); \<open>res\<close> is its parameter \<^verbatim>\<open>results\<close>.\<close>

definition updateNotionDatabase :: "env \<Rightarrow> results \<Rightarrow> system \<Rightarrow> sync \<times> system" where
  "updateNotionDatabase e res s =
     (let s1 = invoke (NotionSyncBackupResults [res]) s
      in case notion_syncBackupResults e (calls s) [res] of
           Inr syncResult \<Rightarrow>
             (\<lparr>s_type = ''notion'', s_success = sr_success syncResult,
               s_details = Some (notion_details
                 (case sr_results_length syncResult of None \<Rightarrow> 0 | Some n \<Rightarrow> n)),
               s_error = None, s_timestamp = date_now e (calls s1)\<rparr>, s1)
         | Inl err \<Rightarrow>
             (\<lparr>s_type = ''notion'', s_success = False, s_details = None,
               s_error = Some err, s_timestamp = date_now e (calls s1)\<rparr>, s1))"

text \<open>\<^verbatim>\<open>syncObsidianVault\<close> (lines 338-363).\<close>

definition syncObsidianVault :: "env \<Rightarrow> results \<Rightarrow> system \<Rightarrow> sync \<times> system" where
  "syncObsidianVault e res s =
     (let s1 = invoke (ObsidianSyncBackupResults [res]) s
      in case obsidian_syncBackupResults e (calls s) [res] of
           Inr syncResult \<Rightarrow>
             (\<lparr>s_type = ''obsidian'', s_success = sr_success syncResult,
               s_details = Some (obsidian_details
                 (case sr_results_length syncResult of None \<Rightarrow> 0 | Some n \<Rightarrow> n)),
               s_error = None, s_timestamp = date_now e (calls s1)\<rparr>, s1)
         | Inl err \<Rightarrow>
             (\<lparr>s_type = ''obsidian'', s_success = False, s_details = None,
               s_error = Some err, s_timestamp = date_now e (calls s1)\<rparr>, s1))"

section \<open>Summary and report\<close>

text \<open>
  \<^verbatim>\<open>generateSummary\<close> (lines 369-401). Like every method it is a function from the state
  to a value and a state; \<^verbatim>\<open>forEach\<close> and \<^verbatim>\<open>reduce\<close> run left to right.
\<close>

definition generateSummary :: "env \<Rightarrow> system \<Rightarrow> summary \<times> system" where
  "generateSummary e s =
     (let r = results s;
          summary0 =
            \<lparr>sm_execution_id = executionId s,
             total_targets = length (targets r),
             successful_downloads = length (filter d_success (downloads r)),
             failed_downloads = length (filter (\<lambda>d. \<not> d_success d) (downloads r)),
             total_files =
               foldl (\<lambda>sum d. sum + (case d_files d of None \<Rightarrow> 0 | Some fs \<Rightarrow> length fs))
                 0 (downloads r),
             sm_duration = humanize e (duration r),
             duration_ms = duration r,
             sm_services = [],
             sm_errors = errors r\<rparr>;
          summary1 =
            foldl (\<lambda>sm sy. sm\<lparr>sm_services :=
                      AList.update (s_type sy)
                        (SyncStatus (s_success sy) (s_details sy) (s_error sy))
                        (sm_services sm)\<rparr>)
              summary0 (syncs r);
          summary2 =
            (if length (uploads r) > 0 then
               summary1\<lparr>sm_services :=
                 AList.update ''dropbox''
                   (DropboxStatus (list_ex u_success (uploads r))
                      (length (filter u_success (uploads r))) (length (uploads r)))
                   (sm_services summary1)\<rparr>
             else summary1)
      in (summary2, s))"

text \<open>
  \<^verbatim>\<open>saveExecutionReport\<close> (lines 407-437): the written object is \<^verbatim>\<open>this.results\<close> with the
  generation time and the platform data added; a failure is logged and thrown again
  (line 435).
\<close>

definition saveExecutionReport :: "env \<Rightarrow> system \<Rightarrow> (string + string) \<times> system" where
  "saveExecutionReport e s =
     (case fs_writeReport e (calls s) (results s) of
        Inr reportPath \<Rightarrow> (Inr reportPath, invoke (WriteReport (results s)) s)
      | Inl err \<Rightarrow> (Inl err, invoke (WriteReport (results s)) s))"

section \<open>Initialisation and validation\<close>

text \<open>\<^verbatim>\<open>initializeServices\<close> (lines 86-110).\<close>

definition initializeServices :: "env \<Rightarrow> config \<Rightarrow> system \<Rightarrow> (string + unit) \<times> system" where
  "initializeServices e cfg s =
     (case service_constructors e cfg of
        Some err \<Rightarrow> (Inl (service_init_failed @ err), s)
      | None \<Rightarrow>
          (Inr (), s\<lparr>services := \<lparr>svc_dropbox = dropbox_enabled cfg,
                                    svc_notion = notion_enabled cfg,
                                    svc_obsidian = obsidian_enabled cfg\<rparr>\<rparr>))"

text \<open>
  \<^verbatim>\<open>initialize\<close> (lines 50-80): a failure of \<^verbatim>\<open>loadConfig\<close> leaves \<^verbatim>\<open>this.logger\<close> unset.
\<close>

definition initialize :: "env \<Rightarrow> system \<Rightarrow> (string + bool) \<times> system" where
  "initialize e s =
     (case loadConfig e of
        Inl err \<Rightarrow> (Inl err, s)
      | Inr cfg \<Rightarrow>
          (let s1 = s\<lparr>config := Some cfg, logger := True, notificationService := True\<rparr>
           in case initializeServices e cfg s1 of
                (Inl err, s2) \<Rightarrow> (Inl err, s2)
              | (Inr u, s2) \<Rightarrow> (Inr True, s2)))"

text \<open>An entry of \<^verbatim>\<open>validations\<close> and the object returned by \<^verbatim>\<open>validateServices\<close>.\<close>

record validation =
  v_service :: string
  v_valid :: bool

record validation_report =
  vr_success :: bool
  vr_validations :: "validation list option"
  vr_error :: "string option"

text \<open>
  One probe of \<^verbatim>\<open>validateServices\<close>: the awaited call and the \<^verbatim>\<open>push\<close> that follows it.
  Once a probe has thrown, the rest of the \<^verbatim>\<open>try\<close> block is skipped.
\<close>

definition probe ::
  "string \<Rightarrow> call \<Rightarrow> (call list \<Rightarrow> string + bool) \<Rightarrow>
   (string + validation list) \<times> system \<Rightarrow> (string + validation list) \<times> system" where
  "probe name c f p =
     (case p of
        (Inl err, s) \<Rightarrow> (Inl err, s)
      | (Inr validations, s) \<Rightarrow>
          (case f (calls s) of
             Inl err \<Rightarrow> (Inl err, invoke c s)
           | Inr valid \<Rightarrow>
               (Inr (validations @ [\<lparr>v_service = name, v_valid = valid\<rparr>]), invoke c s)))"

text \<open>\<^verbatim>\<open>validateServices\<close> (lines 116-156).\<close>

definition validateServices :: "env \<Rightarrow> system \<Rightarrow> validation_report \<times> system" where
  "validateServices e s =
     (let p1 = probe ''Figma'' ValidateToken (figma_validateToken e) (Inr [], s);
          p2 = (if svc_dropbox (services s)
                then probe ''Dropbox'' DropboxValidateConnection (dropbox_validateConnection e) p1
                else p1);
          p3 = (if svc_notion (services s)
                then probe ''Notion'' NotionValidateConnection (notion_validateConnection e) p2
                else p2);
          p4 = (if svc_obsidian (services s)
                then probe ''Obsidian'' ObsidianValidateVault (obsidian_validateVault e) p3
                else p3)
      in case p4 of
           (Inr validations, s1) \<Rightarrow>
             (\<lparr>vr_success = list_all v_valid validations,
               vr_validations = Some validations, vr_error = None\<rparr>, s1)
         | (Inl err, s1) \<Rightarrow>
             (\<lparr>vr_success = False, vr_validations = None, vr_error = Some err\<rparr>, s1))"

section \<open>The run\<close>

text \<open>The constructor (lines 24-44).\<close>

definition constructor :: "env \<Rightarrow> system" where
  "constructor e =
     \<lparr>executionId = uuidv4 e, startTime = date_now e [], config = None, logger = False,
      notificationService = False,
      services = \<lparr>svc_dropbox = False, svc_notion = False, svc_obsidian = False\<rparr>,
      results = \<lparr>execution_id = uuidv4 e, start_time = date_now e [], end_time = None,
                 duration = None, success = False, targets = [], downloads = [],
                 uploads = [], syncs = [], errors = [], summary = None\<rparr>,
      calls = []\<rparr>"

text \<open>
  \<^verbatim>\<open>run\<close> (lines 162-218) is written block by block, in the order of its comments.
  Lines 164-173: initialise, notify the start, validate; the result is the error thrown
  or the configuration that the later blocks read.
\<close>

definition run_validate :: "env \<Rightarrow> system \<Rightarrow> (string + config) \<times> system" where
  "run_validate e s =
     (case initialize e s of
        (Inl err, s1) \<Rightarrow> (Inl err, s1)
      | (Inr u, s1) \<Rightarrow>
          (case config s1 of
             None \<Rightarrow> (Inl (null_property ''backup''), s1)
           | Some cfg \<Rightarrow>
               (case validateServices e (invoke (NotifyBackupStart (backup_targets cfg)) s1) of
                  (validation, s2) \<Rightarrow>
                    if \<not> vr_success validation then (Inl validation_failed_message, s2)
                    else (Inr cfg, s2))))"

text \<open>Lines 176-177.\<close>

definition run_download :: "env \<Rightarrow> config \<Rightarrow> system \<Rightarrow> system" where
  "run_download e cfg s =
     (let s1 = s\<lparr>results := (results s)\<lparr>targets := backup_targets cfg\<rparr>\<rparr>
      in case downloadFigmaFiles e cfg (backup_targets cfg) s1 of
           (dls, s2) \<Rightarrow> s2\<lparr>results := (results s2)\<lparr>downloads := dls\<rparr>\<rparr>)"

text \<open>Lines 180-182.\<close>

definition run_dropbox :: "env \<Rightarrow> system \<Rightarrow> system" where
  "run_dropbox e s =
     (if svc_dropbox (services s) then
        (case uploadToDropbox e (downloads (results s)) s of
           (upls, s1) \<Rightarrow> s1\<lparr>results := (results s1)\<lparr>uploads := upls\<rparr>\<rparr>)
      else s)"

text \<open>Lines 185-187.\<close>

definition run_notion :: "env \<Rightarrow> system \<Rightarrow> system" where
  "run_notion e s =
     (if svc_notion (services s) then
        (case updateNotionDatabase e (results s) s of
           (sy, s1) \<Rightarrow> s1\<lparr>results := (results s1)\<lparr>syncs := syncs (results s1) @ [sy]\<rparr>\<rparr>)
      else s)"

text \<open>Lines 190-192.\<close>

definition run_obsidian :: "env \<Rightarrow> system \<Rightarrow> system" where
  "run_obsidian e s =
     (if svc_obsidian (services s) then
        (case syncObsidianVault e (results s) s of
           (sy, s1) \<Rightarrow> s1\<lparr>results := (results s1)\<lparr>syncs := syncs (results s1) @ [sy]\<rparr>\<rparr>)
      else s)"

text \<open>Lines 195-198.\<close>

definition run_finish :: "env \<Rightarrow> system \<Rightarrow> system" where
  "run_finish e s =
     (let now = date_now e (calls s);
          r1 = (results s)\<lparr>end_time := Some now\<rparr>;
          r2 = r1\<lparr>duration := Some (now - start_time r1)\<rparr>;
          r3 = r2\<lparr>success := list_ex d_success (downloads r2)\<rparr>
      in case generateSummary e (s\<lparr>results := r3\<rparr>) of
           (sm, s1) \<Rightarrow> s1\<lparr>results := (results s1)\<lparr>summary := Some sm\<rparr>\<rparr>)"

text \<open>
  Lines 201-209: \<^verbatim>\<open>displayResults\<close> only prints; the value returned at line 209 is
  \<^verbatim>\<open>this.results\<close>, which the final state holds.
\<close>

definition run_report :: "env \<Rightarrow> system \<Rightarrow> (string + unit) \<times> system" where
  "run_report e s =
     (case saveExecutionReport e s of
        (Inl err, s1) \<Rightarrow> (Inl err, s1)
      | (Inr reportPath, s1) \<Rightarrow>
          (Inr (), invoke (NotifyBackupComplete (downloads (results s1))) s1))"

text \<open>The \<^verbatim>\<open>try\<close> block, lines 163-209.\<close>

definition run_try :: "env \<Rightarrow> system \<Rightarrow> (string + unit) \<times> system" where
  "run_try e s =
     (case run_validate e s of
        (Inl err, s1) \<Rightarrow> (Inl err, s1)
      | (Inr cfg, s1) \<Rightarrow>
          run_report e
            (run_finish e (run_obsidian e (run_notion e (run_dropbox e (run_download e cfg s1))))))"

text \<open>
  The \<^verbatim>\<open>catch\<close> block, lines 210-217. \<^verbatim>\<open>summary.errors\<close> is the array \<^verbatim>\<open>results.errors\<close>
  itself (line 379), so the \<^verbatim>\<open>push\<close> of line 212 shows in a summary that exists.
  With \<^verbatim>\<open>this.logger\<close> still \<^verbatim>\<open>null\<close>, line 213 raises a \<^verbatim>\<open>TypeError\<close> in place of the
  caught error.
\<close>

datatype completion = Returned | Threw string

definition run_catch :: "env \<Rightarrow> string \<Rightarrow> system \<Rightarrow> completion \<times> system" where
  "run_catch e err s =
     (let errs = errors (results s) @ [err];
          s1 = s\<lparr>results := (results s)\<lparr>success := False, errors := errs,
                  summary := map_option (\<lambda>sm. sm\<lparr>sm_errors := errs\<rparr>) (summary (results s))\<rparr>\<rparr>
      in if \<not> logger s1 then (Threw (null_property ''error''), s1)
         else if \<not> notificationService s1 then (Threw (null_property ''notifyBackupError''), s1)
         else (Threw err, invoke (NotifyBackupError err) s1))"

definition run :: "env \<Rightarrow> completion \<times> system" where
  "run e =
     (case run_try e (constructor e) of
        (Inr u, s) \<Rightarrow> (Returned, s)
      | (Inl err, s) \<Rightarrow> run_catch e err s)"

section \<open>Observations\<close>

text \<open>
  The state with which \<^verbatim>\<open>run\<close> reaches line 201, given the state after validation:
  the blocks of lines 176-198 in sequence.
\<close>

abbreviation run_stages :: "env \<Rightarrow> config \<Rightarrow> system \<Rightarrow> system" where
  "run_stages e cfg s \<equiv>
     run_finish e (run_obsidian e (run_notion e (run_dropbox e (run_download e cfg s))))"

text \<open>The test of line 275: the downloads that the upload loop passes to Dropbox.\<close>

abbreviation forwarded :: "download \<Rightarrow> bool" where
  "forwarded d \<equiv> d_success d \<and> truthy (d_output_path d)"


text \<open>The batches passed to Dropbox and to Notion, in the order of the calls.\<close>

fun dropbox_batches :: "call list \<Rightarrow> download list list" where
  "dropbox_batches [] = []"
| "dropbox_batches (DropboxSyncBackupResults b # cs) = b # dropbox_batches cs"
| "dropbox_batches (c # cs) = dropbox_batches cs"

fun notion_batches :: "call list \<Rightarrow> results list list" where
  "notion_batches [] = []"
| "notion_batches (NotionSyncBackupResults b # cs) = b # notion_batches cs"
| "notion_batches (c # cs) = notion_batches cs"

section \<open>Example environments\<close>

text \<open>
  A configuration with two targets and all three destinations enabled, and collaborators
  for it: target \<open>B\<close> cannot be downloaded, every other target yields three files; the
  probes succeed; Dropbox accepts every batch; Notion throws; Obsidian succeeds; the
  report is written. The clock counts the calls made so far.
\<close>

definition demo_config :: config where
  "demo_config =
     \<lparr>backup_targets = [''A'', ''B''], output_dir = Some ''./figma-backups'',
      outputDir = Some ''./figma-backups'', create_timestamp_folder = Some True,
      createTimestampFolder = Some True, dropbox_enabled = True, notion_enabled = True,
      obsidian_enabled = True\<rparr>"

definition demo_env :: env where
  "demo_env =
     \<lparr>uuidv4 = ''run-1'',
      date_now = (\<lambda>t. int (length t)),
      humanize = (\<lambda>d. ''a few seconds''),
      loadConfig = Inr demo_config,
      service_constructors = (\<lambda>cfg. None),
      figma_validateToken = (\<lambda>t. Inr True),
      dropbox_validateConnection = (\<lambda>t. Inr True),
      notion_validateConnection = (\<lambda>t. Inr True),
      obsidian_validateVault = (\<lambda>t. Inr True),
      figma_downloadFromUrl = (\<lambda>t url opts.
        if url = ''B'' then Inl ''not found''
        else Inr \<lparr>fr_files = [''1.fig'', ''2.fig'', ''3.fig''],
                  fr_outputPath = Some (''/out/'' @ url)\<rparr>),
      dropbox_syncBackupResults = (\<lambda>t ds.
        Inr \<lparr>dr_success = True, dr_remoteFolder = Some ''/figma-backups'', dr_error = None\<rparr>),
      notion_syncBackupResults = (\<lambda>t rs. Inl ''notion unreachable''),
      obsidian_syncBackupResults = (\<lambda>t rs.
        Inr \<lparr>sr_success = True, sr_results_length = Some 12\<rparr>),
      fs_writeReport = (\<lambda>t r. Inr ''reports/backup-report.json'')\<rparr>"

text \<open>The same, with a file system that refuses the report.\<close>

definition env_report_fails :: env where
  "env_report_fails = demo_env\<lparr>fs_writeReport := (\<lambda>t r. Inl ''ENOSPC'')\<rparr>"

text \<open>The same, with a Dropbox probe that reports \<^verbatim>\<open>valid: false\<close>.\<close>

definition env_dropbox_invalid :: env where
  "env_dropbox_invalid = demo_env\<lparr>dropbox_validateConnection := (\<lambda>t. Inr False)\<rparr>"


text \<open>The same, with a Dropbox client that throws on the download of \<open>B\<close>.\<close>

definition env_dropbox_throws :: env where
  "env_dropbox_throws =
     demo_env\<lparr>dropbox_syncBackupResults := (\<lambda>t ds.
        if map d_url ds = [''B''] then Inl ''rate limited''
        else Inr \<lparr>dr_success = True, dr_remoteFolder = Some ''/figma-backups'',
                  dr_error = None\<rparr>)\<rparr>"

text \<open>A successful download of a target, as line 239 records it.\<close>

definition demo_download :: "string \<Rightarrow> download" where
  "demo_download url =
     \<lparr>d_url = url, d_success = True, d_files = Some [''1.fig''],
      d_output_path = Some (''/out/'' @ url), d_error = None, d_timestamp = 0\<rparr>"

text \<open>The same as \<open>demo_env\<close>, with two targets that both fail to download.\<close>

definition env_all_fail :: env where
  "env_all_fail =
     demo_env\<lparr>loadConfig := Inr (demo_config\<lparr>backup_targets := [''B'', ''B'']\<rparr>)\<rparr>"

text \<open>Every destination throws: Dropbox on \<open>B\<close>, Notion and Obsidian on every call.\<close>

definition env_destinations_throw :: env where
  "env_destinations_throw =
     env_dropbox_throws\<lparr>obsidian_syncBackupResults := (\<lambda>t rs. Inl ''vault locked'')\<rparr>"

text \<open>
  A state at line 179: three targets have been downloaded and all three destinations
  have been constructed.
\<close>

definition demo_state :: system where
  "demo_state =
     (constructor demo_env)
       \<lparr>config := Some demo_config, logger := True, notificationService := True,
        services := \<lparr>svc_dropbox = True, svc_notion = True, svc_obsidian = True\<rparr>,
        results := (results (constructor demo_env))
          \<lparr>targets := [''A'', ''B'', ''C''],
           downloads := [demo_download ''A'', demo_download ''B'', demo_download ''C'']\<rparr>\<rparr>"

text \<open>A download that succeeded without an output path.\<close>

definition download_without_path :: download where
  "download_without_path = (demo_download ''X'')\<lparr>d_output_path := None\<rparr>"

section \<open>Properties of the stages\<close>

subsection \<open>What each stage leaves unchanged\<close>

lemma download_loop_state:
  "snd (download_loop e cfg urls dls s) =
     s\<lparr>calls := calls s @ map (\<lambda>u. DownloadFromUrl u (download_opts cfg)) urls\<rparr>"
  by (induction urls arbitrary: dls s) (auto simp: Let_def invoke_def split: sum.splits)

lemma download_loop_length:
  "length (fst (download_loop e cfg urls dls s)) = length dls + length urls"
  by (induction urls arbitrary: dls s) (auto simp: Let_def split: sum.splits)

lemma upload_loop_fields [simp]:
  "results (snd (upload_loop e ds upls s)) = results s \<and>
   services (snd (upload_loop e ds upls s)) = services s \<and>
   logger (snd (upload_loop e ds upls s)) = logger s \<and>
   notificationService (snd (upload_loop e ds upls s)) = notificationService s \<and>
   executionId (snd (upload_loop e ds upls s)) = executionId s"
  by (induction ds arbitrary: upls s) (auto simp: Let_def invoke_def split: sum.splits)

lemma uploadToDropbox_fields [simp]:
  "results (snd (uploadToDropbox e ds s)) = results s \<and>
   services (snd (uploadToDropbox e ds s)) = services s \<and>
   logger (snd (uploadToDropbox e ds s)) = logger s \<and>
   notificationService (snd (uploadToDropbox e ds s)) = notificationService s \<and>
   executionId (snd (uploadToDropbox e ds s)) = executionId s"
proof (cases "upload_loop e ds [] s")
  case (Pair x s1)
  then show ?thesis using upload_loop_fields [of e ds "[]" s]
    by (cases x) (simp_all add: uploadToDropbox_def)
qed

lemma run_download_fields [simp]:
  "services (run_download e cfg s) = services s \<and>
   logger (run_download e cfg s) = logger s \<and>
   notificationService (run_download e cfg s) = notificationService s \<and>
   executionId (run_download e cfg s) = executionId s \<and>
   targets (results (run_download e cfg s)) = backup_targets cfg \<and>
   downloads (results (run_download e cfg s)) =
     fst (downloadFigmaFiles e cfg (backup_targets cfg)
            (s\<lparr>results := (results s)\<lparr>targets := backup_targets cfg\<rparr>\<rparr>)) \<and>
   uploads (results (run_download e cfg s)) = uploads (results s) \<and>
   syncs (results (run_download e cfg s)) = syncs (results s) \<and>
   errors (results (run_download e cfg s)) = errors (results s) \<and>
   start_time (results (run_download e cfg s)) = start_time (results s) \<and>
   calls (run_download e cfg s) =
     calls s @ map (\<lambda>u. DownloadFromUrl u (download_opts cfg)) (backup_targets cfg)"
  using download_loop_state [of e cfg "backup_targets cfg" "[]"
          "s\<lparr>results := (results s)\<lparr>targets := backup_targets cfg\<rparr>\<rparr>"]
  by (cases "download_loop e cfg (backup_targets cfg) []
               (s\<lparr>results := (results s)\<lparr>targets := backup_targets cfg\<rparr>\<rparr>)")
     (simp add: run_download_def downloadFigmaFiles_def Let_def)

lemma run_dropbox_fields [simp]:
  "services (run_dropbox e s) = services s \<and>
   logger (run_dropbox e s) = logger s \<and>
   notificationService (run_dropbox e s) = notificationService s \<and>
   executionId (run_dropbox e s) = executionId s \<and>
   targets (results (run_dropbox e s)) = targets (results s) \<and>
   downloads (results (run_dropbox e s)) = downloads (results s) \<and>
   syncs (results (run_dropbox e s)) = syncs (results s) \<and>
   errors (results (run_dropbox e s)) = errors (results s) \<and>
   start_time (results (run_dropbox e s)) = start_time (results s)"
proof (cases "uploadToDropbox e (downloads (results s)) s")
  case (Pair upls s1)
  then show ?thesis using uploadToDropbox_fields [of e "downloads (results s)" s]
    by (simp add: run_dropbox_def)
qed

lemma run_notion_fields [simp]:
  "services (run_notion e s) = services s \<and>
   logger (run_notion e s) = logger s \<and>
   notificationService (run_notion e s) = notificationService s \<and>
   executionId (run_notion e s) = executionId s \<and>
   targets (results (run_notion e s)) = targets (results s) \<and>
   downloads (results (run_notion e s)) = downloads (results s) \<and>
   uploads (results (run_notion e s)) = uploads (results s) \<and>
   errors (results (run_notion e s)) = errors (results s) \<and>
   start_time (results (run_notion e s)) = start_time (results s)"
  by (simp add: run_notion_def updateNotionDatabase_def Let_def invoke_def split: sum.splits)

lemma run_obsidian_fields [simp]:
  "services (run_obsidian e s) = services s \<and>
   logger (run_obsidian e s) = logger s \<and>
   notificationService (run_obsidian e s) = notificationService s \<and>
   executionId (run_obsidian e s) = executionId s \<and>
   targets (results (run_obsidian e s)) = targets (results s) \<and>
   downloads (results (run_obsidian e s)) = downloads (results s) \<and>
   uploads (results (run_obsidian e s)) = uploads (results s) \<and>
   errors (results (run_obsidian e s)) = errors (results s) \<and>
   start_time (results (run_obsidian e s)) = start_time (results s)"
  by (simp add: run_obsidian_def syncObsidianVault_def Let_def invoke_def split: sum.splits)

lemma run_finish_fields [simp]:
  "services (run_finish e s) = services s \<and>
   logger (run_finish e s) = logger s \<and>
   notificationService (run_finish e s) = notificationService s \<and>
   executionId (run_finish e s) = executionId s \<and>
   calls (run_finish e s) = calls s \<and>
   targets (results (run_finish e s)) = targets (results s) \<and>
   downloads (results (run_finish e s)) = downloads (results s) \<and>
   uploads (results (run_finish e s)) = uploads (results s) \<and>
   syncs (results (run_finish e s)) = syncs (results s) \<and>
   errors (results (run_finish e s)) = errors (results s) \<and>
   success (results (run_finish e s)) = list_ex d_success (downloads (results s))"
  by (simp add: run_finish_def generateSummary_def Let_def)

lemma run_finish_summary:
  "\<exists>sm. summary (results (run_finish e s)) = Some sm \<and>
     total_targets sm = length (targets (results s)) \<and>
     successful_downloads sm = length (filter d_success (downloads (results s))) \<and>
     failed_downloads sm = length (filter (\<lambda>d. \<not> d_success d) (downloads (results s)))"
proof -
  have f: "\<And>(sm0::summary) ys. total_targets (foldl (\<lambda>sm sy. sm\<lparr>sm_services :=
                      AList.update (s_type sy)
                        (SyncStatus (s_success sy) (s_details sy) (s_error sy))
                        (sm_services sm)\<rparr>) sm0 ys) = total_targets sm0
        \<and> successful_downloads (foldl (\<lambda>sm sy. sm\<lparr>sm_services :=
                      AList.update (s_type sy)
                        (SyncStatus (s_success sy) (s_details sy) (s_error sy))
                        (sm_services sm)\<rparr>) sm0 ys) = successful_downloads sm0
        \<and> failed_downloads (foldl (\<lambda>sm sy. sm\<lparr>sm_services :=
                      AList.update (s_type sy)
                        (SyncStatus (s_success sy) (s_details sy) (s_error sy))
                        (sm_services sm)\<rparr>) sm0 ys) = failed_downloads sm0"
  proof -
    fix sm0 :: summary and ys
    show "?thesis sm0 ys" by (induction ys arbitrary: sm0) simp_all
  qed
  show ?thesis
    by (simp add: run_finish_def generateSummary_def Let_def f)
qed

lemma run_report_fields [simp]:
  "results (snd (run_report e s)) = results s \<and>
   logger (snd (run_report e s)) = logger s \<and>
   notificationService (snd (run_report e s)) = notificationService s"
  by (simp add: run_report_def saveExecutionReport_def invoke_def split: sum.splits)

lemma initialize_ok:
  "initialize e s = (Inr b, s1) \<Longrightarrow>
     logger s1 \<and> notificationService s1 \<and> results s1 = results s \<and> calls s1 = calls s \<and>
     (\<exists>cfg. loadConfig e = Inr cfg \<and> config s1 = Some cfg \<and>
        services s1 = \<lparr>svc_dropbox = dropbox_enabled cfg, svc_notion = notion_enabled cfg,
                        svc_obsidian = obsidian_enabled cfg\<rparr>)"
  by (auto simp: initialize_def initializeServices_def Let_def split: sum.splits option.splits)

lemma initialize_results [simp]: "results (snd (initialize e s)) = results s"
  by (auto simp: initialize_def initializeServices_def Let_def split: sum.splits option.splits)

lemma probe_fields [simp]:
  "results (snd (probe n c f p)) = results (snd p) \<and>
   logger (snd (probe n c f p)) = logger (snd p) \<and>
   notificationService (snd (probe n c f p)) = notificationService (snd p) \<and>
   services (snd (probe n c f p)) = services (snd p) \<and>
   executionId (snd (probe n c f p)) = executionId (snd p)"
  by (cases p) (auto simp: probe_def invoke_def split: sum.splits)

lemma snd_case_sum_pair:
  "snd (case p of (Inr v, s1) \<Rightarrow> (A v, s1) | (Inl err, s1) \<Rightarrow> (B err, s1)) = snd p"
  by (cases p) (auto split: sum.splits)

lemma validateServices_fields [simp]:
  "results (snd (validateServices e s)) = results s \<and>
   logger (snd (validateServices e s)) = logger s \<and>
   notificationService (snd (validateServices e s)) = notificationService s \<and>
   services (snd (validateServices e s)) = services s \<and>
   executionId (snd (validateServices e s)) = executionId s"
  by (simp add: validateServices_def Let_def snd_case_sum_pair)



lemma run_validate_fields [simp]:
  "results (snd (run_validate e s)) = results s"
proof (cases "initialize e s")
  case (Pair x s1)
  have "results (snd (initialize e s)) = results s"
    by simp
  then have r1: "results s1 = results s"
    using Pair by simp
  show ?thesis
  proof (cases x)
    case (Inl err)
    then show ?thesis using Pair r1 by (simp add: run_validate_def)
  next
    case (Inr b)
    show ?thesis
    proof (cases "config s1")
      case None
      then show ?thesis using Pair Inr r1 by (simp add: run_validate_def)
    next
      case (Some cfg)
      obtain v s2 where v: "validateServices e (invoke (NotifyBackupStart (backup_targets cfg)) s1) = (v, s2)"
        by (cases "validateServices e (invoke (NotifyBackupStart (backup_targets cfg)) s1)")
      have "results (snd (validateServices e (invoke (NotifyBackupStart (backup_targets cfg)) s1))) =
            results (invoke (NotifyBackupStart (backup_targets cfg)) s1)"
        by simp
      then have "results s2 = results (invoke (NotifyBackupStart (backup_targets cfg)) s1)"
        using v by simp
      then have "results s2 = results s" using r1 by (simp add: invoke_def)
      then show ?thesis using Pair Inr Some v by (simp add: run_validate_def)
    qed
  qed
qed

subsection \<open>The download loop and the outcome of a run\<close>





lemma run_catch_fields [simp]:
  "fst (run_catch e err s) \<noteq> Returned \<and>
   targets (results (snd (run_catch e err s))) = targets (results s) \<and>
   downloads (results (snd (run_catch e err s))) = downloads (results s) \<and>
   uploads (results (snd (run_catch e err s))) = uploads (results s) \<and>
   syncs (results (snd (run_catch e err s))) = syncs (results s) \<and>
   errors (results (snd (run_catch e err s))) = errors (results s) @ [err] \<and>
   success (results (snd (run_catch e err s))) = False"
  by (simp add: run_catch_def Let_def invoke_def)

lemma run_catch_logged:
  "logger s \<Longrightarrow> notificationService s \<Longrightarrow>
     fst (run_catch e err s) = Threw err \<and>
     calls (snd (run_catch e err s)) = calls s @ [NotifyBackupError err]"
  by (simp add: run_catch_def Let_def invoke_def)

lemma constructor_results [simp]:
  "targets (results (constructor e)) = [] \<and> downloads (results (constructor e)) = [] \<and>
   uploads (results (constructor e)) = [] \<and> syncs (results (constructor e)) = [] \<and>
   errors (results (constructor e)) = [] \<and> calls (constructor e) = []"
  by (simp add: constructor_def)

lemma run_validate_Inl:
  assumes "run_validate e (constructor e) = (Inl err, s1)"
  shows "run e = run_catch e err s1" and "results s1 = results (constructor e)"
  using assms run_validate_fields [of e "constructor e"]
  by (simp_all add: run_def run_try_def)

lemma run_validate_Inr:
  assumes "run_validate e (constructor e) = (Inr cfg, s1)"
  shows "run e = (case run_report e (run_stages e cfg s1) of
                    (Inr u, s) \<Rightarrow> (Returned, s) | (Inl err, s) \<Rightarrow> run_catch e err s)"
    and "results s1 = results (constructor e)"
  using assms run_validate_fields [of e "constructor e"]
  by (simp_all add: run_def run_try_def)

lemma run_validate_ok:
  assumes "run_validate e s = (Inr cfg, s1)"
  shows "logger s1 \<and> notificationService s1"
proof -
  obtain x s0 where i: "initialize e s = (x, s0)" by (cases "initialize e s")
  show ?thesis
  proof (cases x)
    case (Inl err)
    then show ?thesis using assms i by (simp add: run_validate_def)
  next
    case (Inr b)
    then have l0: "logger s0 \<and> notificationService s0" using initialize_ok i by blast
    show ?thesis
    proof (cases "config s0")
      case None
      then show ?thesis using assms i Inr by (simp add: run_validate_def)
    next
      case (Some c)
      obtain v s2 where v: "validateServices e (invoke (NotifyBackupStart (backup_targets c)) s0) = (v, s2)"
        by (cases "validateServices e (invoke (NotifyBackupStart (backup_targets c)) s0)")
      have "logger (snd (validateServices e (invoke (NotifyBackupStart (backup_targets c)) s0))) \<and>
            notificationService
              (snd (validateServices e (invoke (NotifyBackupStart (backup_targets c)) s0)))"
        using l0 by (simp add: invoke_def)
      then have "logger s2 \<and> notificationService s2"
        using v by simp
      then show ?thesis using assms i Inr Some v by (simp add: run_validate_def split: if_splits)
    qed
  qed
qed


lemma run_stages_fields:
  assumes "run_validate e (constructor e) = (Inr cfg, s1)"
  shows "logger (run_stages e cfg s1)" and "notificationService (run_stages e cfg s1)"
    and "errors (results (run_stages e cfg s1)) = []"
    and "services (run_stages e cfg s1) = services s1"
proof -
  have "results (snd (run_validate e (constructor e))) = results (constructor e)"
    by simp
  then have "results s1 = results (constructor e)"
    using assms by simp
  then show "errors (results (run_stages e cfg s1)) = []"
    by simp
  show "logger (run_stages e cfg s1)" and "notificationService (run_stages e cfg s1)"
    using run_validate_ok [OF assms] by simp_all
  show "services (run_stages e cfg s1) = services s1"
    by simp
qed

lemma run_report_Inl:
  "fs_writeReport e (calls s) (results s) = Inl msg \<Longrightarrow>
     run_report e s = (Inl msg, s\<lparr>calls := calls s @ [WriteReport (results s)]\<rparr>)"
  by (simp add: run_report_def saveExecutionReport_def invoke_def)

lemma run_report_Inr:
  "fs_writeReport e (calls s) (results s) = Inr p \<Longrightarrow>
     run_report e s =
       (Inr (), s\<lparr>calls := calls s @ [WriteReport (results s),
                                         NotifyBackupComplete (downloads (results s))]\<rparr>)"
  by (simp add: run_report_def saveExecutionReport_def invoke_def)

lemma run_report_failed:
  assumes "run_validate e (constructor e) = (Inr cfg, s1)"
    and "fs_writeReport e (calls (run_stages e cfg s1)) (results (run_stages e cfg s1)) = Inl msg"
  shows "fst (run e) = Threw msg"
    and "errors (results (snd (run e))) = [msg]"
    and "success (results (snd (run e))) = False"
    and "downloads (results (snd (run e))) = downloads (results (run_stages e cfg s1))"
    and "calls (snd (run e)) =
           calls (run_stages e cfg s1) @
             [WriteReport (results (run_stages e cfg s1)), NotifyBackupError msg]"
proof -
  let ?S = "run_stages e cfg s1"
  let ?S' = "?S\<lparr>calls := calls ?S @ [WriteReport (results ?S)]\<rparr>"
  have r: "run e = run_catch e msg ?S'"
    using run_validate_Inr(1) [OF assms(1)] run_report_Inl [OF assms(2)] by simp
  have l: "logger ?S'" "notificationService ?S'"
    using run_stages_fields(1,2) [OF assms(1)] by simp_all
  show "fst (run e) = Threw msg"
    using run_catch_logged [OF l, of e msg] r by simp
  show "calls (snd (run e)) = calls ?S @ [WriteReport (results ?S), NotifyBackupError msg]"
    using run_catch_logged [OF l, of e msg] r by simp
  show "errors (results (snd (run e))) = [msg]"
    using run_stages_fields(3) [OF assms(1)] r by simp
  show "success (results (snd (run e))) = False"
    using r by simp
  show "downloads (results (snd (run e))) = downloads (results ?S)"
    using r by simp
qed

lemma run_report_persisted:
  assumes "run_validate e (constructor e) = (Inr cfg, s1)"
    and "fs_writeReport e (calls (run_stages e cfg s1)) (results (run_stages e cfg s1)) = Inr p"
  shows "run e =
     (Returned, (run_stages e cfg s1)\<lparr>calls := calls (run_stages e cfg s1) @
        [WriteReport (results (run_stages e cfg s1)),
         NotifyBackupComplete (downloads (results (run_stages e cfg s1)))]\<rparr>)"
  using run_validate_Inr(1) [OF assms(1)] run_report_Inr [OF assms(2)] by simp

lemma run_validate_failed:
  assumes "run_validate e (constructor e) = (Inl err, s1)"
  shows "fst (run e) \<noteq> Returned"
    and "targets (results (snd (run e))) = []"
    and "downloads (results (snd (run e))) = []"
    and "uploads (results (snd (run e))) = []"
    and "syncs (results (snd (run e))) = []"
    and "errors (results (snd (run e))) = [err]"
    and "success (results (snd (run e))) = False"
  using run_validate_Inl [OF assms] by simp_all

subsection \<open>The upload loop\<close>

lemma upload_loop_append:
  "upload_loop e (ds1 @ ds2) upls s =
     (case upload_loop e ds1 upls s of
        (Inl err, s1) \<Rightarrow> (Inl err, s1)
      | (Inr upls1, s1) \<Rightarrow> upload_loop e ds2 upls1 s1)"
  by (induction ds1 arbitrary: upls s) (simp_all add: Let_def split: sum.splits)

lemma upload_loop_skip:
  "\<not> forwarded d \<Longrightarrow>
     upload_loop e (ds1 @ d # ds2) upls s = upload_loop e (ds1 @ ds2) upls s"
proof -
  assume nf: "\<not> forwarded d"
  have "upload_loop e (d # ds2) u t = upload_loop e ds2 u t" for u t
    using nf by auto
  then show ?thesis
    by (simp only: upload_loop_append [of e ds1 "d # ds2"] upload_loop_append [of e ds1 ds2])
qed

lemma upload_loop_Cons_skip:
  "\<not> forwarded d \<Longrightarrow> upload_loop e (d # ds) upls s = upload_loop e ds upls s"
  by auto

lemma upload_loop_Cons_Inl:
  "forwarded d \<Longrightarrow> dropbox_syncBackupResults e (calls s) [d] = Inl err \<Longrightarrow>
     upload_loop e (d # ds) upls s = (Inl err, invoke (DropboxSyncBackupResults [d]) s)"
  by (simp add: Let_def)

lemma upload_loop_Cons_Inr:
  "forwarded d \<Longrightarrow> dropbox_syncBackupResults e (calls s) [d] = Inr result \<Longrightarrow>
     upload_loop e (d # ds) upls s =
       upload_loop e ds
         (upls @ [\<lparr>u_source = d_output_path d, u_success = dr_success result,
                   u_remoteFolder = dr_remoteFolder result,
                   u_timestamp = date_now e (calls (invoke (DropboxSyncBackupResults [d]) s)),
                   u_error = dr_error result\<rparr>])
         (invoke (DropboxSyncBackupResults [d]) s)"
  by (simp add: Let_def)

lemma upload_loop_calls_prefix:
  "\<exists>bs. prefix bs (map (\<lambda>d. [d]) (filter forwarded ds)) \<and>
        calls (snd (upload_loop e ds upls s)) = calls s @ map DropboxSyncBackupResults bs"
proof (induction ds arbitrary: upls s)
  case Nil
  show ?case by (rule exI [of _ "[]"]) simp
next
  case (Cons d ds)
  show ?case
  proof (cases "forwarded d")
    case False
    then have f: "filter forwarded (d # ds) = filter forwarded ds" by auto
    show ?thesis
      using Cons.IH [of upls s]
      unfolding upload_loop_Cons_skip [OF False] f .
  next
    case True
    then have f: "filter forwarded (d # ds) = d # filter forwarded ds" by simp
    show ?thesis
    proof (cases "dropbox_syncBackupResults e (calls s) [d]")
      case (Inl err)
      show ?thesis
        unfolding upload_loop_Cons_Inl [OF True Inl] f
        by (rule exI [of _ "[[d]]"]) (simp add: invoke_def)
    next
      case (Inr result)
      let ?u = "\<lparr>u_source = d_output_path d, u_success = dr_success result,
                 u_remoteFolder = dr_remoteFolder result,
                 u_timestamp = date_now e (calls (invoke (DropboxSyncBackupResults [d]) s)),
                 u_error = dr_error result\<rparr>"
      let ?s1 = "invoke (DropboxSyncBackupResults [d]) s"
      obtain bs where bs: "prefix bs (map (\<lambda>d. [d]) (filter forwarded ds))"
        "calls (snd (upload_loop e ds (upls @ [?u]) ?s1)) =
           calls ?s1 @ map DropboxSyncBackupResults bs"
        using Cons.IH [of "upls @ [?u]" ?s1] by (elim exE conjE)
      have c: "calls ?s1 = calls s @ [DropboxSyncBackupResults [d]]"
        by (simp add: invoke_def)
      show ?thesis
        unfolding upload_loop_Cons_Inr [OF True Inr] f
        using bs by (intro exI [of _ "[d] # bs"]) (simp add: invoke_def)
    qed
  qed
qed

lemma upload_loop_calls_Inr:
  "fst (upload_loop e ds upls s) = Inr us \<Longrightarrow>
     calls (snd (upload_loop e ds upls s)) =
       calls s @ map (\<lambda>d. DropboxSyncBackupResults [d]) (filter forwarded ds)"
proof (induction ds arbitrary: upls s)
  case Nil
  show ?case by simp
next
  case (Cons d ds)
  show ?case
  proof (cases "forwarded d")
    case False
    then have f: "filter forwarded (d # ds) = filter forwarded ds" by auto
    show ?thesis
      using Cons.IH [of upls s] Cons.prems
      unfolding upload_loop_Cons_skip [OF False] f .
  next
    case True
    then have f: "filter forwarded (d # ds) = d # filter forwarded ds" by simp
    show ?thesis
    proof (cases "dropbox_syncBackupResults e (calls s) [d]")
      case (Inl err)
      show ?thesis
        using Cons.prems unfolding upload_loop_Cons_Inl [OF True Inl] by simp
    next
      case (Inr result)
      let ?u = "\<lparr>u_source = d_output_path d, u_success = dr_success result,
                 u_remoteFolder = dr_remoteFolder result,
                 u_timestamp = date_now e (calls (invoke (DropboxSyncBackupResults [d]) s)),
                 u_error = dr_error result\<rparr>"
      let ?s1 = "invoke (DropboxSyncBackupResults [d]) s"
      have p: "fst (upload_loop e ds (upls @ [?u]) ?s1) = Inr us"
        using Cons.prems unfolding upload_loop_Cons_Inr [OF True Inr] .
      have c: "calls ?s1 = calls s @ [DropboxSyncBackupResults [d]]"
        by (simp add: invoke_def)
      show ?thesis
        unfolding upload_loop_Cons_Inr [OF True Inr] f
        using Cons.IH [OF p] by (simp add: invoke_def)
    qed
  qed
qed

lemma upload_loop_Inr_length:
  "fst (upload_loop e ds upls s) = Inr us \<Longrightarrow>
     length us = length upls + length (filter forwarded ds)"
proof (induction ds arbitrary: upls s)
  case Nil
  then show ?case by simp
next
  case (Cons d ds)
  show ?case
  proof (cases "forwarded d")
    case False
    then have "filter forwarded (d # ds) = filter forwarded ds" by auto
    then show ?thesis
      using Cons.IH [of upls s] Cons.prems upload_loop_Cons_skip [OF False, of e ds upls s]
      by (simp del: upload_loop.simps)
  next
    case True
    then have f: "filter forwarded (d # ds) = d # filter forwarded ds" by simp
    show ?thesis
    proof (cases "dropbox_syncBackupResults e (calls s) [d]")
      case (Inl err)
      then show ?thesis
        using Cons.prems upload_loop_Cons_Inl [OF True Inl, of ds upls]
        by (simp del: upload_loop.simps)
    next
      case (Inr result)
      show ?thesis
        using Cons.prems Cons.IH upload_loop_Cons_Inr [OF True Inr, of ds upls] f
        by (simp del: upload_loop.simps)
    qed
  qed
qed

lemma upload_loop_Inl_forwarded:
  "fst (upload_loop e ds upls s) = Inl err \<Longrightarrow> \<exists>d \<in> set ds. forwarded d"
proof (induction ds arbitrary: upls s)
  case Nil
  then show ?case by simp
next
  case (Cons d ds)
  show ?case
  proof (cases "forwarded d")
    case False
    then have "\<exists>d \<in> set ds. forwarded d"
      using Cons.IH [of upls s] Cons.prems upload_loop_Cons_skip [OF False, of e ds upls s]
      by (simp del: upload_loop.simps)
    then show ?thesis by auto
  next
    case True
    then show ?thesis by auto
  qed
qed

lemma two_in_filter:
  assumes "a \<in> set xs" and "b \<in> set xs" and "a \<noteq> b" and "P a" and "P b"
  shows "2 \<le> length (filter P xs)"
proof -
  have "{a, b} \<subseteq> set (filter P xs)" using assms by simp
  then have "card {a, b} \<le> card (set (filter P xs))"
    by (simp add: card_mono)
  moreover have "card {a, b} = 2" using assms(3) by simp
  ultimately show ?thesis
    using card_length [of "filter P xs"] by linarith
qed

lemma uploadToDropbox_length_less:
  assumes "d \<in> set ds" and "d_success d" and "\<not> truthy (d_output_path d)"
  shows "length (fst (uploadToDropbox e ds s)) < length (filter d_success ds)"
proof (cases "upload_loop e ds [] s")
  case (Pair x s1)
  show ?thesis
  proof (cases x)
    case (Inr us)
    then have l: "length us = length (filter forwarded ds)"
      using upload_loop_Inr_length [of e ds "[]" s us] Pair by simp
    have "length (filter (\<lambda>d. truthy (d_output_path d)) (filter d_success ds))
            < length (filter d_success ds)"
      using assms by (intro length_filter_less [of d]) simp_all
    then have "length (filter forwarded ds) < length (filter d_success ds)"
      by simp
    then show ?thesis using Pair Inr l by (simp add: uploadToDropbox_def)
  next
    case (Inl err)
    then obtain d' where d': "d' \<in> set ds" "forwarded d'"
      using upload_loop_Inl_forwarded [of e ds "[]" s err] Pair by auto
    then have "d' \<noteq> d" using assms(3) by auto
    then have "2 \<le> length (filter d_success ds)"
      using two_in_filter [of d' ds d d_success] d' assms by simp
    then show ?thesis using Pair Inl by (simp add: uploadToDropbox_def)
  qed
qed

lemma uploadToDropbox_calls:
  "calls (snd (uploadToDropbox e ds s)) = calls (snd (upload_loop e ds [] s))"
proof (cases "upload_loop e ds [] s")
  case (Pair x s1)
  then show ?thesis by (cases x) (simp_all add: uploadToDropbox_def)
qed

subsection \<open>Validation and the destinations\<close>



lemma run_dropbox_calls:
  "calls (run_dropbox e s) =
     (if svc_dropbox (services s) then calls (snd (upload_loop e (downloads (results s)) [] s))
      else calls s)"
proof (cases "uploadToDropbox e (downloads (results s)) s")
  case (Pair upls s1)
  have "calls (snd (uploadToDropbox e (downloads (results s)) s)) =
          calls (snd (upload_loop e (downloads (results s)) [] s))"
    by (rule uploadToDropbox_calls)
  then have "calls s1 = calls (snd (upload_loop e (downloads (results s)) [] s))"
    using Pair by simp
  then show ?thesis using Pair by (simp add: run_dropbox_def)
qed


lemma run_notion_calls:
  "calls (run_notion e s) =
     calls s @ (if svc_notion (services s) then [NotionSyncBackupResults [results s]] else [])"
  by (simp add: run_notion_def updateNotionDatabase_def Let_def invoke_def split: sum.splits)

lemma run_obsidian_calls:
  "calls (run_obsidian e s) =
     calls s @ (if svc_obsidian (services s) then [ObsidianSyncBackupResults [results s]] else [])"
  by (simp add: run_obsidian_def syncObsidianVault_def Let_def invoke_def split: sum.splits)



lemma updateNotionDatabase_type [simp]: "s_type (fst (updateNotionDatabase e r s)) = ''notion''"
  by (simp add: updateNotionDatabase_def Let_def split: sum.splits)

lemma syncObsidianVault_type [simp]: "s_type (fst (syncObsidianVault e r s)) = ''obsidian''"
  by (simp add: syncObsidianVault_def Let_def split: sum.splits)






subsection \<open>The example environments, evaluated\<close>

lemma demo_config_fields [simp]:
  "backup_targets demo_config = [''A'', ''B'']"
  "output_dir demo_config = Some ''./figma-backups''"
  "outputDir demo_config = Some ''./figma-backups''"
  "create_timestamp_folder demo_config = Some True"
  "createTimestampFolder demo_config = Some True"
  "dropbox_enabled demo_config" "notion_enabled demo_config" "obsidian_enabled demo_config"
  by (simp_all add: demo_config_def)

lemma demo_env_fields [simp]:
  "uuidv4 demo_env = ''run-1''"
  "date_now demo_env t = int (length t)"
  "humanize demo_env d = ''a few seconds''"
  "loadConfig demo_env = Inr demo_config"
  "service_constructors demo_env cfg = None"
  "figma_validateToken demo_env t = Inr True"
  "dropbox_validateConnection demo_env t = Inr True"
  "notion_validateConnection demo_env t = Inr True"
  "obsidian_validateVault demo_env t = Inr True"
  "figma_downloadFromUrl demo_env t url opts =
     (if url = ''B'' then Inl ''not found''
      else Inr \<lparr>fr_files = [''1.fig'', ''2.fig'', ''3.fig''],
                fr_outputPath = Some (''/out/'' @ url)\<rparr>)"
  "dropbox_syncBackupResults demo_env t ds =
     Inr \<lparr>dr_success = True, dr_remoteFolder = Some ''/figma-backups'', dr_error = None\<rparr>"
  "notion_syncBackupResults demo_env t rs = Inl ''notion unreachable''"
  "obsidian_syncBackupResults demo_env t rs =
     Inr \<lparr>sr_success = True, sr_results_length = Some 12\<rparr>"
  "fs_writeReport demo_env t r = Inr ''reports/backup-report.json''"
  by (simp_all add: demo_env_def)

lemma env_report_fails_fields [simp]:
  "date_now env_report_fails t = int (length t)"
  "loadConfig env_report_fails = Inr demo_config"
  "service_constructors env_report_fails cfg = None"
  "figma_validateToken env_report_fails t = Inr True"
  "dropbox_validateConnection env_report_fails t = Inr True"
  "notion_validateConnection env_report_fails t = Inr True"
  "obsidian_validateVault env_report_fails t = Inr True"
  "figma_downloadFromUrl env_report_fails t url opts =
     (if url = ''B'' then Inl ''not found''
      else Inr \<lparr>fr_files = [''1.fig'', ''2.fig'', ''3.fig''],
                fr_outputPath = Some (''/out/'' @ url)\<rparr>)"
  "fs_writeReport env_report_fails t r = Inl ''ENOSPC''"
  by (simp_all add: env_report_fails_def demo_env_def)

lemma env_dropbox_invalid_fields [simp]:
  "loadConfig env_dropbox_invalid = Inr demo_config"
  "service_constructors env_dropbox_invalid cfg = None"
  "figma_validateToken env_dropbox_invalid t = Inr True"
  "dropbox_validateConnection env_dropbox_invalid t = Inr False"
  "notion_validateConnection env_dropbox_invalid t = Inr True"
  "obsidian_validateVault env_dropbox_invalid t = Inr True"
  by (simp_all add: env_dropbox_invalid_def demo_env_def)


lemma env_all_fail_fields [simp]:
  "date_now env_all_fail t = int (length t)"
  "loadConfig env_all_fail = Inr (demo_config\<lparr>backup_targets := [''B'', ''B'']\<rparr>)"
  "service_constructors env_all_fail cfg = None"
  "figma_validateToken env_all_fail t = Inr True"
  "dropbox_validateConnection env_all_fail t = Inr True"
  "notion_validateConnection env_all_fail t = Inr True"
  "obsidian_validateVault env_all_fail t = Inr True"
  "figma_downloadFromUrl env_all_fail t url opts =
     (if url = ''B'' then Inl ''not found''
      else Inr \<lparr>fr_files = [''1.fig'', ''2.fig'', ''3.fig''],
                fr_outputPath = Some (''/out/'' @ url)\<rparr>)"
  "fs_writeReport env_all_fail t r = Inr ''reports/backup-report.json''"
  by (simp_all add: env_all_fail_def demo_env_def)

lemma env_dropbox_throws_fields [simp]:
  "date_now env_dropbox_throws t = int (length t)"
  "dropbox_syncBackupResults env_dropbox_throws t ds =
     (if map d_url ds = [''B''] then Inl ''rate limited''
      else Inr \<lparr>dr_success = True, dr_remoteFolder = Some ''/figma-backups'',
                dr_error = None\<rparr>)"
  by (simp_all add: env_dropbox_throws_def demo_env_def)

lemma env_destinations_throw_fields [simp]:
  "date_now env_destinations_throw t = int (length t)"
  "dropbox_syncBackupResults env_destinations_throw t ds =
     (if map d_url ds = [''B''] then Inl ''rate limited''
      else Inr \<lparr>dr_success = True, dr_remoteFolder = Some ''/figma-backups'',
                dr_error = None\<rparr>)"
  "notion_syncBackupResults env_destinations_throw t rs = Inl ''notion unreachable''"
  "obsidian_syncBackupResults env_destinations_throw t rs = Inl ''vault locked''"
  by (simp_all add: env_destinations_throw_def env_dropbox_throws_def demo_env_def)

lemma demo_download_fields [simp]:
  "d_url (demo_download u) = u"
  "d_success (demo_download u)"
  "d_output_path (demo_download u) = Some (''/out/'' @ u)"
  by (simp_all add: demo_download_def)

lemma download_without_path_fields [simp]:
  "d_success download_without_path"
  "d_output_path download_without_path = None"
  by (simp_all add: download_without_path_def demo_download_def)

lemma demo_state_fields [simp]:
  "services demo_state = \<lparr>svc_dropbox = True, svc_notion = True, svc_obsidian = True\<rparr>"
  "calls demo_state = []"
  "downloads (results demo_state) =
     [demo_download ''A'', demo_download ''B'', demo_download ''C'']"
  "syncs (results demo_state) = []"
  by (simp_all add: demo_state_def constructor_def)

lemmas validate_defs = run_validate_def initialize_def initializeServices_def
  validateServices_def probe_def invoke_def constructor_def Let_def

lemma demo_env_validated:
  "run_validate demo_env (constructor demo_env) =
     (Inr demo_config, snd (run_validate demo_env (constructor demo_env)))"
  by (simp add: validate_defs)

lemma env_report_fails_validated:
  "run_validate env_report_fails (constructor env_report_fails) =
     (Inr demo_config, snd (run_validate env_report_fails (constructor env_report_fails)))"
  by (simp add: validate_defs)


lemma env_all_fail_validated:
  "run_validate env_all_fail (constructor env_all_fail) =
     (Inr (demo_config\<lparr>backup_targets := [''B'', ''B'']\<rparr>),
      snd (run_validate env_all_fail (constructor env_all_fail)))"
  by (simp add: validate_defs demo_config_def)

lemma list_ex_map: "list_ex P xs = (True \<in> set (map P xs))"
  by (auto simp: list_ex_iff)

lemma list_all_not_map: "list_all (\<lambda>x. \<not> P x) xs = (True \<notin> set (map P xs))"
  by (auto simp: list_all_iff)

lemma run_dropbox_calls_mono: "set (calls s) \<subseteq> set (calls (run_dropbox e s))"
proof -
  obtain bs where "calls (snd (upload_loop e (downloads (results s)) [] s)) =
      calls s @ map DropboxSyncBackupResults bs"
    using upload_loop_calls_prefix [of "downloads (results s)" e "[]" s] by (elim exE conjE)
  then show ?thesis
    by (auto simp: run_dropbox_calls)
qed

lemma calls_run_stages_downloads:
  "set (map (\<lambda>u. DownloadFromUrl u (download_opts cfg)) (backup_targets cfg))
     \<subseteq> set (calls (run_stages e cfg s))"
proof -
  have "set (calls (run_download e cfg s)) \<subseteq> set (calls (run_dropbox e (run_download e cfg s)))"
    by (rule run_dropbox_calls_mono)
  also have "\<dots> \<subseteq> set (calls (run_stages e cfg s))"
    by (auto simp: run_notion_calls run_obsidian_calls)
  finally show ?thesis by auto
qed

lemma dropbox_batches_append [simp]:
  "dropbox_batches (xs @ ys) = dropbox_batches xs @ dropbox_batches ys"
  by (induction xs rule: dropbox_batches.induct) simp_all

lemma notion_batches_append [simp]:
  "notion_batches (xs @ ys) = notion_batches xs @ notion_batches ys"
  by (induction xs rule: notion_batches.induct) simp_all

lemma env_report_fails_downloads:
  "map d_success (fst (downloadFigmaFiles env_report_fails demo_config [''A'', ''B''] s)) =
     [True, False]"
  by (simp add: downloadFigmaFiles_def Let_def)





lemma env_all_fail_downloads:
  "map d_success (fst (downloadFigmaFiles env_all_fail cfg [''B'', ''B''] s)) = [False, False]"
  by (simp add: downloadFigmaFiles_def Let_def)

lemma upload_loop_demo_A:
  "upload_loop env_dropbox_throws [demo_download ''A''] [] demo_state =
     (Inr [\<lparr>u_source = Some ''/out/A'', u_success = True,
            u_remoteFolder = Some ''/figma-backups'', u_timestamp = 1, u_error = None\<rparr>],
      demo_state\<lparr>calls := [DropboxSyncBackupResults [demo_download ''A'']]\<rparr>)"
  by (simp add: Let_def invoke_def)





section \<open>The claims\<close>

subsection \<open>C1\<close>

text \<open>
  Claim C1, as amended. When the run reaches the reporting step and writing the report
  fails with a message, the run throws that message, the message is the one entry of
  \<^verbatim>\<open>errors\<close>, and \<^verbatim>\<open>success\<close> is set to \<open>False\<close> whatever the downloads were; the
  recorded downloads stay as they were.
\<close>

theorem report_failure_recorded_and_fatal:
  assumes "run_validate e (constructor e) = (Inr cfg, s1)"
    and "fs_writeReport e (calls (run_stages e cfg s1)) (results (run_stages e cfg s1)) = Inl msg"
  shows "fst (run e) = Threw msg \<and>
         errors (results (snd (run e))) = [msg] \<and>
         success (results (snd (run e))) = False \<and>
         downloads (results (snd (run e))) = downloads (results (run_stages e cfg s1))"
  using run_report_failed [OF assms] by simp

text \<open>
  Claim C1 as stated fails: with a file system that refuses the report, target \<open>A\<close> is
  downloaded, the failure is recorded in \<^verbatim>\<open>errors\<close>, and \<^verbatim>\<open>success\<close> is \<open>False\<close>.
\<close>

theorem report_failure_flips_success:
  "fst (run env_report_fails) = Threw ''ENOSPC'' \<and>
   errors (results (snd (run env_report_fails))) = [''ENOSPC''] \<and>
   list_ex d_success (downloads (results (snd (run env_report_fails)))) \<and>
   success (results (snd (run env_report_fails))) = False"
proof -
  have w: "fs_writeReport env_report_fails
     (calls (run_stages env_report_fails demo_config
        (snd (run_validate env_report_fails (constructor env_report_fails)))))
     (results (run_stages env_report_fails demo_config
        (snd (run_validate env_report_fails (constructor env_report_fails))))) = Inl ''ENOSPC''"
    by (rule env_report_fails_fields)
  note r = run_report_failed [OF env_report_fails_validated w]
  have "list_ex d_success (downloads (results (snd (run env_report_fails))))"
    unfolding r(4) by (simp add: list_ex_map env_report_fails_downloads)
  then show ?thesis using r(1,2,3) by (intro conjI)
qed

text \<open>The amended statement at that environment.\<close>

theorem report_failure_recorded_and_fatal_witness:
  "run_validate env_report_fails (constructor env_report_fails) =
     (Inr demo_config, snd (run_validate env_report_fails (constructor env_report_fails))) \<and>
   fs_writeReport env_report_fails
     (calls (run_stages env_report_fails demo_config
        (snd (run_validate env_report_fails (constructor env_report_fails)))))
     (results (run_stages env_report_fails demo_config
        (snd (run_validate env_report_fails (constructor env_report_fails))))) = Inl ''ENOSPC'' \<and>
   fst (run env_report_fails) = Threw ''ENOSPC'' \<and>
   errors (results (snd (run env_report_fails))) = [''ENOSPC''] \<and>
   success (results (snd (run env_report_fails))) = False"
proof -
  have w: "fs_writeReport env_report_fails
     (calls (run_stages env_report_fails demo_config
        (snd (run_validate env_report_fails (constructor env_report_fails)))))
     (results (run_stages env_report_fails demo_config
        (snd (run_validate env_report_fails (constructor env_report_fails))))) = Inl ''ENOSPC''"
    by (rule env_report_fails_fields)
  show ?thesis
    using report_failure_recorded_and_fatal [OF env_report_fails_validated w]
      env_report_fails_validated w
    by (intro conjI) (elim conjE, assumption)+
qed

subsection \<open>C2\<close>

text \<open>
  Claim C2, as amended. A run returns its results exactly when initialisation and
  validation pass and the report is written; the outcomes of the downloads and of the
  destinations play no part. So after the download stage has begun the run still fails
  when the report cannot be written.
\<close>

theorem run_returns_iff_report_persisted:
  "(fst (run e) = Returned) =
     (\<exists>cfg s1 p. run_validate e (constructor e) = (Inr cfg, s1) \<and>
        fs_writeReport e (calls (run_stages e cfg s1)) (results (run_stages e cfg s1)) = Inr p)"
proof (cases "run_validate e (constructor e)")
  case (Pair x s1)
  show ?thesis
  proof (cases x)
    case (Inl err)
    then show ?thesis using run_validate_failed(1) [of e err s1] Pair by simp
  next
    case (Inr cfg)
    then have v: "run_validate e (constructor e) = (Inr cfg, s1)" using Pair by simp
    show ?thesis
    proof (cases "fs_writeReport e (calls (run_stages e cfg s1)) (results (run_stages e cfg s1))")
      case (Inl msg)
      then show ?thesis using run_report_failed(1) [OF v Inl] v by simp
    next
      case (Inr p)
      then show ?thesis using run_report_persisted [OF v Inr] v by simp
    qed
  qed
qed

text \<open>
  Claim C2 as stated fails: with a file system that refuses the report, the source is
  called for target \<open>A\<close> and the run throws.
\<close>

theorem download_begun_yet_failed:
  "DownloadFromUrl ''A'' (download_opts demo_config) \<in> set (calls (snd (run env_report_fails))) \<and>
   fst (run env_report_fails) = Threw ''ENOSPC''"
proof -
  have w: "fs_writeReport env_report_fails
     (calls (run_stages env_report_fails demo_config
        (snd (run_validate env_report_fails (constructor env_report_fails)))))
     (results (run_stages env_report_fails demo_config
        (snd (run_validate env_report_fails (constructor env_report_fails))))) = Inl ''ENOSPC''"
    by (rule env_report_fails_fields)
  note r = run_report_failed [OF env_report_fails_validated w]
  have "DownloadFromUrl ''A'' (download_opts demo_config) \<in>
          set (map (\<lambda>u. DownloadFromUrl u (download_opts demo_config)) (backup_targets demo_config))"
    by simp
  then have "DownloadFromUrl ''A'' (download_opts demo_config) \<in>
          set (calls (run_stages env_report_fails demo_config
            (snd (run_validate env_report_fails (constructor env_report_fails)))))"
    using calls_run_stages_downloads by blast
  then have "DownloadFromUrl ''A'' (download_opts demo_config) \<in> set (calls (snd (run env_report_fails)))"
    unfolding r(5) by simp
  then show ?thesis using r(1) by (intro conjI)
qed

text \<open>The amended statement at the environment whose report is written.\<close>

theorem run_returns_iff_report_persisted_witness:
  "run_validate demo_env (constructor demo_env) =
     (Inr demo_config, snd (run_validate demo_env (constructor demo_env))) \<and>
   fs_writeReport demo_env
     (calls (run_stages demo_env demo_config (snd (run_validate demo_env (constructor demo_env)))))
     (results (run_stages demo_env demo_config (snd (run_validate demo_env (constructor demo_env)))))
     = Inr ''reports/backup-report.json'' \<and>
   fst (run demo_env) = Returned"
proof -
  have w: "fs_writeReport demo_env
     (calls (run_stages demo_env demo_config (snd (run_validate demo_env (constructor demo_env)))))
     (results (run_stages demo_env demo_config (snd (run_validate demo_env (constructor demo_env)))))
     = Inr ''reports/backup-report.json''"
    by (rule demo_env_fields)
  have "fst (run demo_env) = Returned"
    using run_returns_iff_report_persisted [of demo_env] demo_env_validated w by blast
  then show ?thesis using demo_env_validated w by (intro conjI)
qed

subsection \<open>C3\<close>




subsection \<open>C4\<close>



subsection \<open>C5\<close>

text \<open>
  Claim C5. For a run that returns, \<^verbatim>\<open>success\<close> is "some download succeeded", for every
  behaviour of the destinations; when every download failed, \<^verbatim>\<open>success\<close> is \<open>False\<close> and
  the summary's \<^verbatim>\<open>failed_downloads\<close> is the number of targets.
\<close>

theorem success_iff_some_download_succeeded:
  assumes "fst (run e) = Returned"
  shows "success (results (snd (run e))) = list_ex d_success (downloads (results (snd (run e)))) \<and>
         (list_all (\<lambda>d. \<not> d_success d) (downloads (results (snd (run e)))) \<longrightarrow>
            success (results (snd (run e))) = False \<and>
            map_option failed_downloads (summary (results (snd (run e)))) =
              Some (length (targets (results (snd (run e))))))"
proof (cases "run_validate e (constructor e)")
  case (Pair x s1)
  show ?thesis
  proof (cases x)
    case (Inl err)
    then show ?thesis using run_validate_failed(1) [of e err s1] Pair assms by simp
  next
    case (Inr cfg)
    then have v: "run_validate e (constructor e) = (Inr cfg, s1)" using Pair by simp
    let ?S = "run_obsidian e (run_notion e (run_dropbox e (run_download e cfg s1)))"
    show ?thesis
    proof (cases "fs_writeReport e (calls (run_stages e cfg s1)) (results (run_stages e cfg s1))")
      case (Inl msg)
      then show ?thesis using run_report_failed(1) [OF v Inl] assms by simp
    next
      case (Inr p)
      have r: "results (snd (run e)) = results (run_finish e ?S)"
        using run_report_persisted [OF v Inr] by simp
      obtain sm where sm: "summary (results (run_finish e ?S)) = Some sm"
        "failed_downloads sm = length (filter (\<lambda>d. \<not> d_success d) (downloads (results ?S)))"
        using run_finish_summary [of e ?S] by blast
      have len: "length (downloads (results ?S)) = length (targets (results ?S))"
        by (simp add: downloadFigmaFiles_def download_loop_length)
      have "list_all (\<lambda>d. \<not> d_success d) (downloads (results ?S)) \<Longrightarrow>
              filter (\<lambda>d. \<not> d_success d) (downloads (results ?S)) = downloads (results ?S)"
        by (simp add: list_all_iff)
      then show ?thesis
        using r sm len by (auto simp: list_all_iff list_ex_iff)
    qed
  qed
qed

text \<open>A run in which both downloads fail and the report is written.\<close>

theorem success_iff_some_download_succeeded_witness:
  "fst (run env_all_fail) = Returned \<and>
   list_all (\<lambda>d. \<not> d_success d) (downloads (results (snd (run env_all_fail)))) \<and>
   success (results (snd (run env_all_fail))) = False \<and>
   map_option failed_downloads (summary (results (snd (run env_all_fail)))) = Some 2"
proof -
  let ?cfg = "demo_config\<lparr>backup_targets := [''B'', ''B'']\<rparr>"
  let ?s1 = "snd (run_validate env_all_fail (constructor env_all_fail))"
  have w: "fs_writeReport env_all_fail (calls (run_stages env_all_fail ?cfg ?s1))
             (results (run_stages env_all_fail ?cfg ?s1)) = Inr ''reports/backup-report.json''"
    by (rule env_all_fail_fields)
  note r = run_report_persisted [OF env_all_fail_validated w]
  have ret: "fst (run env_all_fail) = Returned"
    unfolding r by simp
  have d: "list_all (\<lambda>d. \<not> d_success d) (downloads (results (snd (run env_all_fail))))"
    unfolding r by (simp add: list_all_not_map env_all_fail_downloads)
  have t: "length (targets (results (snd (run env_all_fail)))) = 2"
    unfolding r by simp
  show ?thesis
    using success_iff_some_download_succeeded [OF ret] ret d t by auto
qed

subsection \<open>C6\<close>




subsection \<open>C7\<close>



subsection \<open>C8\<close>

text \<open>
  Claim C8. \<^verbatim>\<open>generateSummary\<close> leaves the state as it is (no field of \<^verbatim>\<open>this\<close> changes,
  no collaborator is called), calling it again on that state gives the same summary, and
  the summary depends only on the accumulated results and the execution id.
\<close>

theorem generateSummary_pure:
  "snd (generateSummary e s) = s \<and>
   fst (generateSummary e (snd (generateSummary e s))) = fst (generateSummary e s) \<and>
   (results s' = results s \<and> executionId s' = executionId s \<longrightarrow>
      fst (generateSummary e s') = fst (generateSummary e s))"
  by (simp add: generateSummary_def Let_def)

text \<open>Two states that differ in the call log only.\<close>

theorem generateSummary_pure_witness:
  "results (demo_state\<lparr>calls := [ValidateToken]\<rparr>) = results demo_state \<and>
   executionId (demo_state\<lparr>calls := [ValidateToken]\<rparr>) = executionId demo_state \<and>
   fst (generateSummary demo_env (demo_state\<lparr>calls := [ValidateToken]\<rparr>)) =
     fst (generateSummary demo_env demo_state) \<and>
   snd (generateSummary demo_env demo_state) = demo_state"
  using generateSummary_pure [of demo_env demo_state "demo_state\<lparr>calls := [ValidateToken]\<rparr>"]
  by simp

subsection \<open>C9\<close>

text \<open>
  Claim C9. When the upload loop has gone through the downloads \<open>ds1\<close> without a throw,
  collecting the records \<open>upls1\<close>, and the Dropbox call for the next forwarded download
  throws, \<^verbatim>\<open>uploadToDropbox\<close> returns the single failed entry with the message: the records
  \<open>upls1\<close>, one per forwarded download of \<open>ds1\<close>, are dropped, and the throwing call is
  the last call made, so the downloads \<open>ds2\<close> after it are never attempted.
\<close>

theorem uploadToDropbox_throw_discards_uploads:
  assumes "upload_loop e ds1 [] s = (Inr upls1, s1)"
    and "d_success d \<and> truthy (d_output_path d)"
    and "dropbox_syncBackupResults e (calls s1) [d] = Inl msg"
  shows "uploadToDropbox e (ds1 @ d # ds2) s =
           ([\<lparr>u_source = None, u_success = False, u_remoteFolder = None,
              u_timestamp = date_now e (calls s1 @ [DropboxSyncBackupResults [d]]),
              u_error = Some msg\<rparr>],
            s1\<lparr>calls := calls s1 @ [DropboxSyncBackupResults [d]]\<rparr>) \<and>
         length upls1 = length (filter (\<lambda>d. d_success d \<and> truthy (d_output_path d)) ds1) \<and>
         calls s1 = calls s @ map (\<lambda>d. DropboxSyncBackupResults [d])
                      (filter (\<lambda>d. d_success d \<and> truthy (d_output_path d)) ds1)"
proof -
  have "upload_loop e (ds1 @ d # ds2) [] s = upload_loop e (d # ds2) upls1 s1"
    using assms(1) by (simp only: upload_loop_append prod.case sum.case)
  also have "\<dots> = (Inl msg, invoke (DropboxSyncBackupResults [d]) s1)"
    using assms(2,3) by (rule upload_loop_Cons_Inl)
  finally have a: "uploadToDropbox e (ds1 @ d # ds2) s =
           ([\<lparr>u_source = None, u_success = False, u_remoteFolder = None,
              u_timestamp = date_now e (calls s1 @ [DropboxSyncBackupResults [d]]),
              u_error = Some msg\<rparr>],
            s1\<lparr>calls := calls s1 @ [DropboxSyncBackupResults [d]]\<rparr>)"
    by (simp add: uploadToDropbox_def invoke_def del: upload_loop.simps)
  have b: "length upls1 = length (filter forwarded ds1)"
    using upload_loop_Inr_length [of e ds1 "[]" s upls1] assms(1) by simp
  have c: "calls s1 = calls s @ map (\<lambda>d. DropboxSyncBackupResults [d]) (filter forwarded ds1)"
    using upload_loop_calls_Inr [of e ds1 "[]" s upls1] assms(1) by simp
  show ?thesis using a b c by (intro conjI)
qed

text \<open>Dropbox accepts \<open>A\<close> and throws on \<open>B\<close>; \<open>C\<close> is never attempted.\<close>

theorem uploadToDropbox_throw_discards_uploads_witness:
  "upload_loop env_dropbox_throws [demo_download ''A''] [] demo_state =
     (Inr [\<lparr>u_source = Some ''/out/A'', u_success = True,
            u_remoteFolder = Some ''/figma-backups'', u_timestamp = 1, u_error = None\<rparr>],
      demo_state\<lparr>calls := [DropboxSyncBackupResults [demo_download ''A'']]\<rparr>) \<and>
   dropbox_syncBackupResults env_dropbox_throws
     [DropboxSyncBackupResults [demo_download ''A'']] [demo_download ''B''] = Inl ''rate limited'' \<and>
   uploadToDropbox env_dropbox_throws
     [demo_download ''A'', demo_download ''B'', demo_download ''C''] demo_state =
     ([\<lparr>u_source = None, u_success = False, u_remoteFolder = None, u_timestamp = 2,
        u_error = Some ''rate limited''\<rparr>],
      demo_state\<lparr>calls := [DropboxSyncBackupResults [demo_download ''A''],
                              DropboxSyncBackupResults [demo_download ''B'']]\<rparr>)"
proof -
  have f: "d_success (demo_download ''B'') \<and> truthy (d_output_path (demo_download ''B''))"
    by simp
  have t: "dropbox_syncBackupResults env_dropbox_throws
             (calls (demo_state\<lparr>calls := [DropboxSyncBackupResults [demo_download ''A'']]\<rparr>))
             [demo_download ''B''] = Inl ''rate limited''"
    by simp
  show ?thesis
    using uploadToDropbox_throw_discards_uploads [OF upload_loop_demo_A f t, of "[demo_download ''C'']"]
      upload_loop_demo_A
    by simp
qed

subsection \<open>C10\<close>

text \<open>
  Claim C10. A download with \<^verbatim>\<open>success: true\<close> and a missing or empty \<^verbatim>\<open>output_path\<close> has
  no effect on \<^verbatim>\<open>uploadToDropbox\<close>: the result is the same as without it, it is in no
  batch passed to Dropbox, and the uploads are fewer than the successful downloads.
\<close>

theorem uploadToDropbox_skips_missing_output_path:
  assumes "d_success d" and "\<not> truthy (d_output_path d)"
  shows "uploadToDropbox e (ds1 @ d # ds2) s = uploadToDropbox e (ds1 @ ds2) s \<and>
         (\<exists>bs. calls (snd (uploadToDropbox e (ds1 @ d # ds2) s)) =
                  calls s @ map DropboxSyncBackupResults bs \<and>
               d \<notin> set (concat bs)) \<and>
         length (fst (uploadToDropbox e (ds1 @ d # ds2) s)) <
           length (filter d_success (ds1 @ d # ds2))"
proof -
  have nf: "\<not> forwarded d" using assms(2) by simp
  have a: "uploadToDropbox e (ds1 @ d # ds2) s = uploadToDropbox e (ds1 @ ds2) s"
    by (simp only: uploadToDropbox_def upload_loop_skip [OF nf])
  obtain bs where bs: "prefix bs (map (\<lambda>d. [d]) (filter forwarded (ds1 @ d # ds2)))"
    "calls (snd (upload_loop e (ds1 @ d # ds2) [] s)) = calls s @ map DropboxSyncBackupResults bs"
    using upload_loop_calls_prefix [of "ds1 @ d # ds2" e "[]" s] by (elim exE conjE)
  have "set bs \<subseteq> set (map (\<lambda>d. [d]) (filter forwarded (ds1 @ d # ds2)))"
    using bs(1) by (rule set_mono_prefix)
  then have nb: "d \<notin> set (concat bs)"
    using nf by auto
  have "calls (snd (uploadToDropbox e (ds1 @ d # ds2) s)) =
          calls s @ map DropboxSyncBackupResults bs"
    using bs(2) by (simp only: uploadToDropbox_calls)
  then have b: "\<exists>bs. calls (snd (uploadToDropbox e (ds1 @ d # ds2) s)) =
                  calls s @ map DropboxSyncBackupResults bs \<and> d \<notin> set (concat bs)"
    using nb by (intro exI [of _ bs] conjI)
  have c: "length (fst (uploadToDropbox e (ds1 @ d # ds2) s)) <
             length (filter d_success (ds1 @ d # ds2))"
    using assms by (intro uploadToDropbox_length_less [of d]) simp_all
  show ?thesis using a b c by (intro conjI)
qed

text \<open>One forwarded download and one without an output path.\<close>

theorem uploadToDropbox_skips_missing_output_path_witness:
  "d_success download_without_path \<and>
   truthy (d_output_path download_without_path) = False \<and>
   uploadToDropbox demo_env [demo_download ''A'', download_without_path] demo_state =
     uploadToDropbox demo_env [demo_download ''A''] demo_state \<and>
   length (fst (uploadToDropbox demo_env [demo_download ''A'', download_without_path] demo_state))
     < length (filter d_success [demo_download ''A'', download_without_path])"
proof -
  have a: "d_success download_without_path" and b: "\<not> truthy (d_output_path download_without_path)"
    by simp_all
  note th = uploadToDropbox_skips_missing_output_path
    [OF a b, of demo_env "[demo_download ''A'']" "[]" demo_state, unfolded append.simps]
  show ?thesis
    using th a b by blast
qed

end
